theory Spec2Isabelle
  imports Main
begin

section \<open>Python strings\<close>

text \<open>
  A Python \<open>str\<close> is modelled as a \<open>string\<close>; a \<open>char\<close> stands for a code point
  below 256. \<open>is_space\<close> lists the code points of that range that \<open>str.strip()\<close>
  removes (those with \<open>str.isspace()\<close>).
\<close>

definition is_space :: "char \<Rightarrow> bool" where
  "is_space c = (c \<in> set [CHR 0x09, CHR 0x0A, CHR 0x0B, CHR 0x0C, CHR 0x0D,
                         CHR 0x1C, CHR 0x1D, CHR 0x1E, CHR 0x1F, CHR '' '',
                         CHR 0x85, CHR 0xA0])"

definition strip :: "string \<Rightarrow> string" where
  "strip s = rev (dropWhile is_space (rev (dropWhile is_space s)))"

text \<open>\<open>s.lstrip('/')\<close> and \<open>s.rstrip('/')\<close>: every leading (trailing) slash goes.\<close>

definition lstrip_slash :: "string \<Rightarrow> string" where
  "lstrip_slash s = dropWhile (\<lambda>c. c = CHR ''/'') s"

definition rstrip_slash :: "string \<Rightarrow> string" where
  "rstrip_slash s = rev (dropWhile (\<lambda>c. c = CHR ''/'') (rev s))"

definition startswith :: "string \<Rightarrow> string \<Rightarrow> bool" where
  "startswith s p = (take (length p) s = p)"

definition upper_chars :: "char list" where
  "upper_chars = ''ABCDEFGHIJKLMNOPQRSTUVWXYZ'' @
     [CHR 0xC0, CHR 0xC1, CHR 0xC2, CHR 0xC3, CHR 0xC4, CHR 0xC5, CHR 0xC6, CHR 0xC7,
      CHR 0xC8, CHR 0xC9, CHR 0xCA, CHR 0xCB, CHR 0xCC, CHR 0xCD, CHR 0xCE, CHR 0xCF,
      CHR 0xD0, CHR 0xD1, CHR 0xD2, CHR 0xD3, CHR 0xD4, CHR 0xD5, CHR 0xD6,
      CHR 0xD8, CHR 0xD9, CHR 0xDA, CHR 0xDB, CHR 0xDC, CHR 0xDD, CHR 0xDE]"

definition lower_chars :: "char list" where
  "lower_chars = ''abcdefghijklmnopqrstuvwxyz'' @
     [CHR 0xE0, CHR 0xE1, CHR 0xE2, CHR 0xE3, CHR 0xE4, CHR 0xE5, CHR 0xE6, CHR 0xE7,
      CHR 0xE8, CHR 0xE9, CHR 0xEA, CHR 0xEB, CHR 0xEC, CHR 0xED, CHR 0xEE, CHR 0xEF,
      CHR 0xF0, CHR 0xF1, CHR 0xF2, CHR 0xF3, CHR 0xF4, CHR 0xF5, CHR 0xF6,
      CHR 0xF8, CHR 0xF9, CHR 0xFA, CHR 0xFB, CHR 0xFC, CHR 0xFD, CHR 0xFE]"

definition lower_char :: "char \<Rightarrow> char" where
  "lower_char c = (case map_of (zip upper_chars lower_chars) c of Some d \<Rightarrow> d | None \<Rightarrow> c)"

definition lower :: "string \<Rightarrow> string" where
  "lower s = map lower_char s"


section \<open>Values of the article export\<close>

text \<open>
  What \<open>json.load\<close> returns: \<open>None\<close>, a bool, a number (integers here), a \<open>str\<close>,
  a list, or a dict, kept as the list of its items in insertion order and read with
  \<open>map_of\<close>. \<open>truthy\<close> is Python's truth value of such a value.
\<close>

datatype json =
    JNull
  | JBool bool
  | JNum int
  | JStr string
  | JArr "json list"
  | JObj "(string \<times> json) list"

fun truthy :: "json \<Rightarrow> bool" where
  "truthy JNull = False"
| "truthy (JBool b) = b"
| "truthy (JNum n) = (n \<noteq> 0)"
| "truthy (JStr s) = (s \<noteq> [])"
| "truthy (JArr xs) = (xs \<noteq> [])"
| "truthy (JObj d) = (d \<noteq> [])"

datatype error = AttributeError | TypeError | KeyError

text \<open>\<open>d.get(k)\<close>: the value, or \<open>None\<close> for an absent key.\<close>

definition py_get :: "(string \<times> json) list \<Rightarrow> string \<Rightarrow> json" where
  "py_get d k = (case map_of d k of None \<Rightarrow> JNull | Some v \<Rightarrow> v)"

text \<open>\<open>d.get(k, default)\<close>.\<close>

definition py_get_default :: "(string \<times> json) list \<Rightarrow> string \<Rightarrow> json \<Rightarrow> json" where
  "py_get_default d k dflt = (case map_of d k of None \<Rightarrow> dflt | Some v \<Rightarrow> v)"

text \<open>\<open>a or b\<close>.\<close>

definition py_or :: "json \<Rightarrow> json \<Rightarrow> json" where
  "py_or a b = (if truthy a then a else b)"

text \<open>
  What a \<open>for\<close> loop iterates over: the elements of a list, the one-character strings of a
  \<open>str\<close>, the keys of a dict; any other value raises \<open>TypeError\<close>.
\<close>

fun py_iter :: "json \<Rightarrow> error + json list" where
  "py_iter (JArr xs) = Inr xs"
| "py_iter (JStr s) = Inr (map (\<lambda>c. JStr [c]) s)"
| "py_iter (JObj d) = Inr (map (\<lambda>kv. JStr (fst kv)) d)"
| "py_iter JNull = Inl TypeError"
| "py_iter (JBool b) = Inl TypeError"
| "py_iter (JNum n) = Inl TypeError"


section \<open>prepare_data.py: the static tables\<close>

definition CATEGORY_MAP :: "(string \<times> string list) list" where
  "CATEGORY_MAP =
   [(''field_topics'',
       [''Eating and body image'', ''Relationships'', ''Panic attacks'', ''Natural disasters'',
        ''Stress'', ''Self-harm'', ''Suicide'', ''Psychosis'', ''Grief'', ''Gambling'',
        ''Domestic and family violence'', ''Financial stress'', ''Trauma'', ''Loneliness'',
        ''Depression'', ''Substance Misuse'', ''Anxiety'']),
    (''field_media_type'', [''Read'', ''Watch'', ''Listen'']),
    (''field_audience'', [''Carer Stories'', ''For Others Page'', ''Friends Family'']),
    (''field_quiz_question_2'', [''Long-term help'', ''Short-term help'']),
    (''field_timeframe'', [''Long term'', ''Right now'']),
    (''field_support_toolkit_type'',
       [''Technique or Strategy'', ''Support Service'', ''Support Guide'', ''Real Story'',
        ''Tool or App'']),
    (''field_tools_apps_type'', [''Online Program'', ''Book'', ''Website'', ''App'']),
    (''field_quiz_question_1'', [''Other topics'']),
    (''field_quiz_understanding'', [''Understanding'']),
    (''field_cost'', [''Low cost'', ''Free'']),
    (''field_access_options'',
       [''Online'', ''Phone'', ''Counselling'', ''Text'', ''Forum'', ''Peer Support'', ''Crisis'',
        ''In Person'']),
    (''field_state'',
       [''National'', ''NT'', ''ACT'', ''SA'', ''TAS'', ''VIC'', ''WA'', ''QLD'', ''NSW'']),
    (''field_quiz_priority'', [''Priority 3'', ''Priority 2'', ''Priority 1''])]"

text \<open>
  The loop that builds the flat lookup. The state is the dict built so far (its items in
  insertion order) and the duplicate warnings printed so far, each as (label, field
  already mapped, field skipped).
\<close>

type_synonym lookup_state = "(string \<times> string) list \<times> (string \<times> string \<times> string) list"

fun add_labels :: "string \<Rightarrow> string list \<Rightarrow> lookup_state \<Rightarrow> lookup_state" where
  "add_labels field_name [] st = st"
| "add_labels field_name (label # labels) (m, w) =
     (case map_of m label of
        Some f0 \<Rightarrow> add_labels field_name labels (m, w @ [(label, f0, field_name)])
      | None \<Rightarrow> add_labels field_name labels (m @ [(label, field_name)], w))"

fun build_lookup :: "(string \<times> string list) list \<Rightarrow> lookup_state \<Rightarrow> lookup_state" where
  "build_lookup [] st = st"
| "build_lookup ((field_name, labels) # cs) st = build_lookup cs (add_labels field_name labels st)"

definition TAG_LABEL_TO_FIELD :: "string \<Rightarrow> string option" where
  "TAG_LABEL_TO_FIELD = map_of (fst (build_lookup CATEGORY_MAP ([], [])))"

definition IGNORED_TAGS :: "string set" where
  "IGNORED_TAGS = {''Audio'', ''Graphic'', ''Video''}"

definition LABEL_TRANSLATION :: "(string \<times> string) list" where
  "LABEL_TRANSLATION =
   [(''Technique or Strategy'', ''Techniques & Guides''),
    (''Tool or App'', ''Tools & Apps''),
    (''Right now'', ''Help right now''),
    (''Long term'', ''Long term help''),
    (''Short-term help'', ''Try something to help me manage now''),
    (''Long-term help'', ''Strategies to help me long term''),
    (''Other topics'', ''I'' @ [CHR 0x27] @ ''m feeling something else''),
    (''For Others Page'', ''For Others''),
    (''Friends Family'', ''For Friends & Family''),
    (''Grief'', ''Grief & loss''),
    (''Gambling'', ''Problem gambling''),
    (''Online'', ''Online Chat'')]"

definition translate_label :: "string \<Rightarrow> string" where
  "translate_label label = (case map_of LABEL_TRANSLATION label of None \<Rightarrow> label | Some t \<Rightarrow> t)"


section \<open>prepare_data.py: classifying one article\<close>

text \<open>
  The result dict \<open>fields\<close> is kept as the list of its items in insertion order.
  \<open>setdefault_append fields k v\<close> is \<open>fields.setdefault(k, []).append(v)\<close>.
\<close>

type_synonym fields = "(string \<times> string list) list"

fun setdefault_append :: "fields \<Rightarrow> string \<Rightarrow> string \<Rightarrow> fields" where
  "setdefault_append [] k v = [(k, [v])]"
| "setdefault_append ((k', vs) # rest) k v =
     (if k' = k then (k', vs @ [v]) # rest else (k', vs) # setdefault_append rest k v)"

text \<open>The list stored under a field, empty when the field is absent.\<close>

definition fields_get :: "fields \<Rightarrow> string \<Rightarrow> string list" where
  "fields_get fs k = (case map_of fs k of None \<Rightarrow> [] | Some vs \<Rightarrow> vs)"

text \<open>The truth value of an optional string (\<open>None\<close> and \<open>""\<close> are false).\<close>

definition str_opt_truthy :: "string option \<Rightarrow> bool" where
  "str_opt_truthy v = (case v of None \<Rightarrow> False | Some s \<Rightarrow> s \<noteq> [])"

text \<open>\<open>(tag.get("label") or "").strip()\<close>\<close>

definition tag_label :: "json \<Rightarrow> error + string" where
  "tag_label tag =
     (case tag of
        JObj d \<Rightarrow>
          (case py_or (py_get d ''label'') (JStr []) of
             JStr s \<Rightarrow> Inr (strip s)
           | _ \<Rightarrow> Inl AttributeError)
      | _ \<Rightarrow> Inl AttributeError)"

text \<open>The body of the loop over the tags, from the trimmed label on.\<close>

definition classify_label :: "string \<Rightarrow> fields \<times> string list \<Rightarrow> fields \<times> string list" where
  "classify_label label st =
     (case st of (fields, unmapped_tags) \<Rightarrow>
        if label = [] then st
        else
          (let field = TAG_LABEL_TO_FIELD label in
           if str_opt_truthy field then
             (let drupal_label = translate_label label
              in (setdefault_append fields (the field) drupal_label, unmapped_tags))
           else if label \<notin> IGNORED_TAGS then (fields, unmapped_tags @ [label])
           else st))"

fun classify_tags :: "json list \<Rightarrow> fields \<times> string list \<Rightarrow> error + fields \<times> string list" where
  "classify_tags [] st = Inr st"
| "classify_tags (tag # tags) st =
     (case tag_label tag of
        Inl e \<Rightarrow> Inl e
      | Inr label \<Rightarrow> classify_tags tags (classify_label label st))"

text \<open>
  The label of a feeling: of a dict, of a plain string, or \<open>None\<close> for a value that the
  loop passes over (\<open>continue\<close>).
\<close>

definition feeling_label :: "json \<Rightarrow> error + string option" where
  "feeling_label feeling =
     (case feeling of
        JObj d \<Rightarrow>
          (case py_or (py_get d ''label'') (JStr []) of
             JStr s \<Rightarrow> Inr (Some (strip s))
           | _ \<Rightarrow> Inl AttributeError)
      | JStr s \<Rightarrow> Inr (Some (strip s))
      | _ \<Rightarrow> Inr None)"

fun classify_feelings :: "json list \<Rightarrow> fields \<Rightarrow> error + fields" where
  "classify_feelings [] fields = Inr fields"
| "classify_feelings (feeling # feelings) fields =
     (case feeling_label feeling of
        Inl e \<Rightarrow> Inl e
      | Inr None \<Rightarrow> classify_feelings feelings fields
      | Inr (Some label) \<Rightarrow>
          classify_feelings feelings
            (if label \<noteq> [] then setdefault_append fields ''field_feelings'' label else fields))"

text \<open>
  A warning line: the value printed for the article (\<open>article.get('title', '?')\<close>) and the
  list of unmapped labels. \<open>classify_article\<close> returns the warning it printed, if any, and
  the dict it returns or the exception it raises.
\<close>

type_synonym warning = "json \<times> string list"

definition classify_article :: "json \<Rightarrow> warning option \<times> (error + fields)" where
  "classify_article article =
     (case article of
        JObj a \<Rightarrow>
          (case py_iter (py_or (py_get a ''tags'') (JArr [])) of
             Inl e \<Rightarrow> (None, Inl e)
           | Inr tags \<Rightarrow>
               (case classify_tags tags ([], []) of
                  Inl e \<Rightarrow> (None, Inl e)
                | Inr (fields, unmapped_tags) \<Rightarrow>
                    (let warning =
                       (if unmapped_tags \<noteq> []
                        then Some (py_get_default a ''title'' (JStr ''?''), unmapped_tags)
                        else None)
                     in case py_iter (py_or (py_get a ''feelings'') (JArr [])) of
                          Inl e \<Rightarrow> (warning, Inl e)
                        | Inr feelings \<Rightarrow> (warning, classify_feelings feelings fields))))
      | _ \<Rightarrow> (None, Inl AttributeError))"


section \<open>prepare_data.py: the path table and the main loop\<close>

text \<open>
  A row as \<open>csv.DictReader\<close> yields it: a dict from column names to cells, a cell missing
  from a short row being \<open>None\<close>. \<open>row_field row k\<close> is \<open>row[k].strip()\<close>.
\<close>

type_synonym csv_row = "(string \<times> string option) list"

definition row_field :: "csv_row \<Rightarrow> string \<Rightarrow> error + string" where
  "row_field row k =
     (case map_of row k of
        None \<Rightarrow> Inl KeyError
      | Some None \<Rightarrow> Inl AttributeError
      | Some (Some s) \<Rightarrow> Inr (strip s))"

fun load_rows :: "csv_row list \<Rightarrow> (string \<rightharpoonup> string) \<Rightarrow> error + (string \<rightharpoonup> string)" where
  "load_rows [] mapping = Inr mapping"
| "load_rows (row # rows) mapping =
     (case row_field row ''sanity-path'' of
        Inl e \<Rightarrow> Inl e
      | Inr sanity \<Rightarrow>
          (case row_field row ''drupal-path'' of
             Inl e \<Rightarrow> Inl e
           | Inr drupal \<Rightarrow>
               if startswith sanity ''http'' then load_rows rows mapping
               else load_rows rows (mapping(sanity \<mapsto> drupal))))"

definition load_path_mapping :: "csv_row list \<Rightarrow> error + (string \<rightharpoonup> string)" where
  "load_path_mapping rows = load_rows rows Map.empty"

record result =
  r_drupal_path :: string
  r_sanity_path :: string
  r_title :: json
  r_fields :: fields

record main_state =
  results :: "result list"
  matched :: nat
  unmatched_paths :: "string list"
  warnings :: "warning list"

definition init_state :: main_state where
  "init_state = \<lparr>results = [], matched = 0, unmatched_paths = [], warnings = []\<rparr>"

text \<open>\<open>article.get("path", "").lstrip("/")\<close>\<close>

definition article_sanity_path :: "json \<Rightarrow> error + string" where
  "article_sanity_path article =
     (case article of
        JObj a \<Rightarrow>
          (case py_get_default a ''path'' (JStr []) of
             JStr sanity_path_raw \<Rightarrow> Inr (lstrip_slash sanity_path_raw)
           | _ \<Rightarrow> Inl AttributeError)
      | _ \<Rightarrow> Inl AttributeError)"

text \<open>\<open>article.get("title") or article.get("name") or ""\<close>, for an article that is a dict.\<close>

definition article_title :: "json \<Rightarrow> json" where
  "article_title article =
     (case article of
        JObj a \<Rightarrow> py_or (py_or (py_get a ''title'') (py_get a ''name'')) (JStr [])
      | _ \<Rightarrow> JNull)"

text \<open>The body of the loop over the articles.\<close>

definition process_article :: "(string \<rightharpoonup> string) \<Rightarrow> json \<Rightarrow> main_state \<Rightarrow> error + main_state" where
  "process_article path_map article st =
     (case article_sanity_path article of
        Inl e \<Rightarrow> Inl e
      | Inr sanity_path \<Rightarrow>
          (let drupal_path = path_map sanity_path
           in if \<not> str_opt_truthy drupal_path
              then Inr (st\<lparr>unmatched_paths := unmatched_paths st @ [sanity_path]\<rparr>)
              else
                (case classify_article article of
                   (w, Inl e) \<Rightarrow> Inl e
                 | (w, Inr fs) \<Rightarrow>
                     Inr (st\<lparr>matched := matched st + 1,
                             warnings := warnings st @ (case w of None \<Rightarrow> [] | Some x \<Rightarrow> [x]),
                             results :=
                               (if fs \<noteq> []
                                then results st @
                                  [\<lparr>r_drupal_path = the drupal_path,
                                    r_sanity_path = sanity_path,
                                    r_title = article_title article,
                                    r_fields = fs\<rparr>]
                                else results st)\<rparr>))))"

fun process_articles :: "(string \<rightharpoonup> string) \<Rightarrow> json list \<Rightarrow> main_state \<Rightarrow> error + main_state" where
  "process_articles path_map [] st = Inr st"
| "process_articles path_map (article # articles) st =
     (case process_article path_map article st of
        Inl e \<Rightarrow> Inl e
      | Inr st' \<Rightarrow> process_articles path_map articles st')"

text \<open>
  \<open>main\<close> of prepare_data.py, from the loaded export \<open>data\<close> and the rows of the path table to the final
  state of the loop (written out and summarised afterwards) or the exception that ends the
  run. \<open>len(articles)\<close> raises \<open>TypeError\<close> exactly where iterating it does.
\<close>

definition prepare_data_main :: "json \<Rightarrow> csv_row list \<Rightarrow> error + main_state" where
  "prepare_data_main data rows =
     (case data of
        JObj d \<Rightarrow>
          (case py_iter (py_get_default d ''articles'' (JArr [])) of
             Inl e \<Rightarrow> Inl e
           | Inr articles \<Rightarrow>
               (case load_path_mapping rows of
                  Inl e \<Rightarrow> Inl e
                | Inr path_map \<Rightarrow> process_articles path_map articles init_state))
      | _ \<Rightarrow> Inl AttributeError)"


section \<open>get_node_ids.py: the parser\<close>

text \<open>
  The HTML tokenizer is outside the model: a document is the list of its start tags in
  document order, each with its attributes as \<open>HTMLParser\<close> passes them to
  \<open>handle_starttag\<close> (an attribute without a value has the value \<open>None\<close>).
\<close>

type_synonym start_tag = "string \<times> (string \<times> string option) list"

text \<open>\<open>{k: v for k, v in attrs}.get(key)\<close>: the last pair of a repeated key wins.\<close>

definition attr_get :: "(string \<times> string option) list \<Rightarrow> string \<Rightarrow> string option" where
  "attr_get attrs key = (case map_of (rev attrs) key of None \<Rightarrow> None | Some v \<Rightarrow> v)"

text \<open>The parser's state is its field \<open>node_id\<close>.\<close>

definition handle_starttag :: "string option \<Rightarrow> start_tag \<Rightarrow> string option" where
  "handle_starttag self_node_id t =
     (case t of (tag, attrs) \<Rightarrow>
        if self_node_id \<noteq> None then self_node_id
        else if lower tag \<noteq> ''article'' then self_node_id
        else
          (let node_id = attr_get attrs ''data-history-node-id''
           in if str_opt_truthy node_id then Some (strip (the node_id)) else self_node_id))"

fun feed :: "string option \<Rightarrow> start_tag list \<Rightarrow> string option" where
  "feed self_node_id [] = self_node_id"
| "feed self_node_id (t # ts) = feed (handle_starttag self_node_id t) ts"

text \<open>
  The transport is a parameter: \<open>urlopen url\<close> is the exception raised while the page is
  fetched and decoded (its message), or the start tags of the decoded page.
\<close>

type_synonym fetcher = "string \<Rightarrow> string + start_tag list"

definition fetch_node_id :: "fetcher \<Rightarrow> string \<Rightarrow> string + string option" where
  "fetch_node_id urlopen url =
     (case urlopen url of
        Inl exc \<Rightarrow> Inl exc
      | Inr html \<Rightarrow> Inr (feed None html))"

definition normalize_url :: "string \<Rightarrow> string \<Rightarrow> string" where
  "normalize_url base drupal_path =
     (if startswith drupal_path ''http://'' \<or> startswith drupal_path ''https://''
      then drupal_path
      else rstrip_slash base @ ''/'' @ lstrip_slash drupal_path)"


section \<open>get_node_ids.py: the table\<close>

text \<open>
  The table is the list of rows that \<open>csv.reader\<close> returns, each a list of cells. The
  options that matter to the table are the base URL and \<open>--skip-existing\<close>.
\<close>

record args =
  base_url :: string
  skip_existing :: bool

text \<open>\<open>header.index(name)\<close>, called for a name that is in the header.\<close>

fun index_of :: "string list \<Rightarrow> string \<Rightarrow> nat" where
  "index_of [] name = 0"
| "index_of (c # cs) name = (if c = name then 0 else Suc (index_of cs name))"

definition ensure_column :: "string list \<Rightarrow> string \<Rightarrow> string list \<times> nat" where
  "ensure_column header name =
     (if name \<in> set header then (header, index_of header name)
      else (header @ [name], length (header @ [name]) - 1))"

text \<open>\<open>while len(row) <= m: row.append("")\<close>\<close>

function pad_row :: "nat \<Rightarrow> string list \<Rightarrow> string list" where
  "pad_row m row = (if length row \<le> m then pad_row m (row @ [[]]) else row)"
  by pat_completeness auto
termination
  by (relation "measure (\<lambda>(m, row). Suc m - length row)") auto

declare pad_row.simps [simp del]

text \<open>The progress line of a row: its index, the total, the path and the outcome.\<close>

datatype event =
    Skipped nat nat string
  | EmptyPath nat nat
  | Found nat nat string string
  | NotFound nat nat string
  | FetchError nat nat string string

text \<open>The body of the loop over the data rows: the row appended and the line printed.\<close>

definition process_row ::
  "fetcher \<Rightarrow> args \<Rightarrow> nat \<Rightarrow> nat \<Rightarrow> nat \<Rightarrow> nat \<Rightarrow> string list \<Rightarrow> string list \<times> event" where
  "process_row urlopen a node_col_idx edit_col_idx ntotal i row0 =
     (let row = pad_row (max node_col_idx edit_col_idx) row0;
          drupal_path = (if row \<noteq> [] then strip (row ! 0) else []);
          existing = strip (row ! node_col_idx)
      in if skip_existing a \<and> existing \<noteq> [] then (row, Skipped i ntotal drupal_path)
         else if drupal_path = [] then (row, EmptyPath i ntotal)
         else
           (let url = normalize_url (base_url a) drupal_path
            in case fetch_node_id urlopen url of
                 Inr node_id \<Rightarrow>
                   if str_opt_truthy node_id
                   then (row[node_col_idx := the node_id,
                             edit_col_idx := rstrip_slash (base_url a) @ ''/node/'' @ the node_id @ ''/edit''],
                         Found i ntotal drupal_path (the node_id))
                   else (row[node_col_idx := [], edit_col_idx := []], NotFound i ntotal drupal_path)
               | Inl exc \<Rightarrow>
                   (row[node_col_idx := [], edit_col_idx := []],
                    FetchError i ntotal drupal_path exc)))"

fun process_rows ::
  "fetcher \<Rightarrow> args \<Rightarrow> nat \<Rightarrow> nat \<Rightarrow> nat \<Rightarrow> nat \<Rightarrow> string list list
     \<Rightarrow> string list list \<times> event list \<Rightarrow> string list list \<times> event list" where
  "process_rows urlopen a n e ntotal i [] acc = acc"
| "process_rows urlopen a n e ntotal i (row # rows) (updated_rows, out) =
     (case process_row urlopen a n e ntotal i row of
        (row', ev) \<Rightarrow>
          process_rows urlopen a n e ntotal (Suc i) rows (updated_rows @ [row'], out @ [ev]))"

text \<open>The header block of \<open>main\<close>: the header written and the two column indices.\<close>

definition ensure_columns :: "string list \<Rightarrow> string list \<times> nat \<times> nat" where
  "ensure_columns header0 =
     (case ensure_column header0 ''node-id'' of
        (header1, node_col_idx) \<Rightarrow>
          (case ensure_column header1 ''edit-link'' of
             (header2, edit_col_idx) \<Rightarrow> (header2, node_col_idx, edit_col_idx)))"

text \<open>
  \<open>main\<close> of get_node_ids.py. The file is \<open>None\<close> when it does not exist. The run
  returns 1 with a message, or returns 0 with the table written and the lines printed.
\<close>

datatype exit_error = CsvNotFound | CsvEmpty

definition get_node_ids_main ::
  "fetcher \<Rightarrow> args \<Rightarrow> string list list option
     \<Rightarrow> exit_error + string list list \<times> event list" where
  "get_node_ids_main urlopen a file =
     (case file of
        None \<Rightarrow> Inl CsvNotFound
      | Some rows \<Rightarrow>
          if rows = [] then Inl CsvEmpty
          else
            (case ensure_columns (hd rows) of
               (header, node_col_idx, edit_col_idx) \<Rightarrow>
                 Inr (process_rows urlopen a node_col_idx edit_col_idx (length rows - 1) 1
                        (tl rows) ([header], []))))"

text \<open>
  What a reading of the extraction that looks at the first \<open>article\<close> tag only would
  return: the trimmed attribute of that tag if it is non-empty, and nothing otherwise.
\<close>

definition first_article_only :: "start_tag list \<Rightarrow> string option" where
  "first_article_only html =
     (case find (\<lambda>t. lower (fst t) = ''article'') html of
        None \<Rightarrow> None
      | Some t \<Rightarrow>
          (case attr_get (snd t) ''data-history-node-id'' of
             None \<Rightarrow> None
           | Some v \<Rightarrow> if strip v \<noteq> [] then Some (strip v) else None))"


section \<open>Properties of the static tables\<close>

lemma add_labels_lookup:
  "map_of (fst (add_labels f ls (m, w))) l =
     (case map_of m l of Some g \<Rightarrow> Some g | None \<Rightarrow> if l \<in> set ls then Some f else None)"
  by (induction ls arbitrary: m w) (auto split: option.splits simp: map_add_def)

lemma build_lookup_lookup:
  "map_of (fst (build_lookup cs st)) l =
     (case map_of (fst st) l of
        Some g \<Rightarrow> Some g
      | None \<Rightarrow> map_option fst (find (\<lambda>g. l \<in> set (snd g)) cs))"
proof (induction cs arbitrary: st)
  case Nil
  show ?case by (simp split: option.splits)
next
  case (Cons c cs)
  obtain f ls where c: "c = (f, ls)" by (cases c)
  obtain m w where st: "st = (m, w)" by (cases st)
  show ?case
    unfolding c st by (simp add: Cons.IH add_labels_lookup split: option.splits)
qed

lemma TAG_LABEL_TO_FIELD_find:
  "TAG_LABEL_TO_FIELD l = map_option fst (find (\<lambda>g. l \<in> set (snd g)) CATEGORY_MAP)"
  by (simp add: TAG_LABEL_TO_FIELD_def build_lookup_lookup)

lemma find_filter_unique:
  "distinct (concat (map snd cs)) \<Longrightarrow> find (\<lambda>g. l \<in> set (snd g)) cs = Some g
     \<Longrightarrow> filter (\<lambda>g. l \<in> set (snd g)) cs = [g]"
proof (induction cs)
  case Nil
  then show ?case by simp
next
  case (Cons c cs)
  show ?case
  proof (cases "l \<in> set (snd c)")
    case True
    with Cons.prems have "\<forall>g \<in> set cs. l \<notin> set (snd g)" by auto
    then have "filter (\<lambda>g. l \<in> set (snd g)) cs = []" by (simp add: filter_empty_conv)
    with True Cons.prems show ?thesis by simp
  next
    case False
    with Cons show ?thesis by simp
  qed
qed

lemma CATEGORY_MAP_distinct: "distinct (concat (map snd CATEGORY_MAP))"
  by (simp add: CATEGORY_MAP_def)

lemma TAG_LABEL_TO_FIELD_group:
  assumes "TAG_LABEL_TO_FIELD l = Some f"
  shows "map fst (filter (\<lambda>g. l \<in> set (snd g)) CATEGORY_MAP) = [f]"
proof -
  from assms obtain g where g: "find (\<lambda>g. l \<in> set (snd g)) CATEGORY_MAP = Some g" and f: "f = fst g"
    by (auto simp: TAG_LABEL_TO_FIELD_find)
  from find_filter_unique [OF CATEGORY_MAP_distinct g] f show ?thesis by simp
qed

lemma find_Some_mem: "find P xs = Some x \<Longrightarrow> x \<in> set xs"
  by (induction xs) (auto split: if_splits)

lemma TAG_LABEL_TO_FIELD_in_fields:
  "TAG_LABEL_TO_FIELD l = Some f \<Longrightarrow> f \<in> fst ` set CATEGORY_MAP"
proof -
  assume "TAG_LABEL_TO_FIELD l = Some f"
  then obtain g where g: "find (\<lambda>g. l \<in> set (snd g)) CATEGORY_MAP = Some g" and f: "f = fst g"
    by (auto simp: TAG_LABEL_TO_FIELD_find)
  from g have "g \<in> set CATEGORY_MAP" by (rule find_Some_mem)
  with f show ?thesis by (rule_tac image_eqI)
qed

lemma fields_get_setdefault_append:
  "fields_get (setdefault_append fs k v) k' =
     (if k' = k then fields_get fs k @ [v] else fields_get fs k')"
  by (induction fs) (auto simp: fields_get_def)

lemma TAG_LABEL_TO_FIELD_nonempty: "TAG_LABEL_TO_FIELD l = Some f \<Longrightarrow> f \<noteq> []"
  by (drule TAG_LABEL_TO_FIELD_in_fields) (auto simp: CATEGORY_MAP_def)

lemma TAG_LABEL_TO_FIELD_not_feelings: "TAG_LABEL_TO_FIELD l \<noteq> Some ''field_feelings''"
proof
  assume "TAG_LABEL_TO_FIELD l = Some ''field_feelings''"
  then have "''field_feelings'' \<in> fst ` set CATEGORY_MAP" by (rule TAG_LABEL_TO_FIELD_in_fields)
  then show False by (simp add: CATEGORY_MAP_def)
qed

lemma TAG_Audio: "TAG_LABEL_TO_FIELD ''Audio'' = None"
  by (simp add: TAG_LABEL_TO_FIELD_find CATEGORY_MAP_def)

lemma TAG_Graphic: "TAG_LABEL_TO_FIELD ''Graphic'' = None"
  by (simp add: TAG_LABEL_TO_FIELD_find CATEGORY_MAP_def)

lemma TAG_Video: "TAG_LABEL_TO_FIELD ''Video'' = None"
  by (simp add: TAG_LABEL_TO_FIELD_find CATEGORY_MAP_def)

lemma TAG_LABEL_TO_FIELD_ignored: "l \<in> IGNORED_TAGS \<Longrightarrow> TAG_LABEL_TO_FIELD l = None"
  using TAG_Audio TAG_Graphic TAG_Video by (auto simp: IGNORED_TAGS_def)

lemma str_opt_truthy_TAG:
  "str_opt_truthy (TAG_LABEL_TO_FIELD l) \<longleftrightarrow> TAG_LABEL_TO_FIELD l \<noteq> None"
  by (auto simp: str_opt_truthy_def dest: TAG_LABEL_TO_FIELD_nonempty split: option.splits)

lemma classify_label_fields:
  "fields_get (fst (classify_label l (fs, un))) f =
     fields_get fs f @ (if l \<noteq> [] \<and> TAG_LABEL_TO_FIELD l = Some f then [translate_label l] else [])"
  by (auto simp: classify_label_def Let_def str_opt_truthy_TAG fields_get_setdefault_append)

lemma classify_label_unmapped:
  "snd (classify_label l (fs, un)) =
     un @ (if l \<noteq> [] \<and> TAG_LABEL_TO_FIELD l = None \<and> l \<notin> IGNORED_TAGS then [l] else [])"
  by (cases "TAG_LABEL_TO_FIELD l")
     (auto simp: classify_label_def Let_def str_opt_truthy_def dest: TAG_LABEL_TO_FIELD_nonempty)

lemma fold_classify_label_fields:
  "fields_get (fst (fold classify_label ls st)) f =
     fields_get (fst st) f @
       map translate_label (filter (\<lambda>l. l \<noteq> [] \<and> TAG_LABEL_TO_FIELD l = Some f) ls)"
proof (induction ls arbitrary: st)
  case Nil
  show ?case by simp
next
  case (Cons l ls)
  obtain fs un where st: "st = (fs, un)" by (cases st)
  show ?case
    unfolding st by (simp add: Cons.IH classify_label_fields)
qed

lemma fold_classify_label_unmapped:
  "snd (fold classify_label ls st) =
     snd st @ filter (\<lambda>l. l \<noteq> [] \<and> TAG_LABEL_TO_FIELD l = None \<and> l \<notin> IGNORED_TAGS) ls"
proof (induction ls arbitrary: st)
  case Nil
  show ?case by simp
next
  case (Cons l ls)
  obtain fs un where st: "st = (fs, un)" by (cases st)
  show ?case
    unfolding st by (simp add: Cons.IH classify_label_unmapped)
qed

lemma classify_tags_fold:
  "map tag_label tags = map Inr labels \<Longrightarrow>
     classify_tags tags st = Inr (fold classify_label labels st)"
proof (induction tags arbitrary: labels st)
  case Nil
  then show ?case by simp
next
  case (Cons t ts)
  then obtain l ls where "labels = l # ls" "tag_label t = Inr l" "map tag_label ts = map Inr ls"
    by (cases labels) auto
  with Cons.IH show ?case by simp
qed

lemma classify_feelings_fields:
  "classify_feelings feelings fs = Inr fs' \<Longrightarrow>
     \<exists>rest. \<forall>f. fields_get fs' f = fields_get fs f @ (if f = ''field_feelings'' then rest else [])"
proof (induction feelings arbitrary: fs)
  case Nil
  then have "\<forall>f. fields_get fs' f = fields_get fs f @ (if f = ''field_feelings'' then [] else [])"
    by simp
  then show ?case by blast
next
  case (Cons x xs)
  from Cons.prems obtain lab where lab: "feeling_label x = Inr lab"
    by (cases "feeling_label x") auto
  define fs1 where "fs1 =
    (case lab of None \<Rightarrow> fs
     | Some label \<Rightarrow> if label \<noteq> [] then setdefault_append fs ''field_feelings'' label else fs)"
  from Cons.prems lab have "classify_feelings xs fs1 = Inr fs'"
    by (cases lab) (auto simp: fs1_def)
  from Cons.IH [OF this] obtain rest where
    rest: "\<forall>f. fields_get fs' f = fields_get fs1 f @ (if f = ''field_feelings'' then rest else [])"
    by blast
  obtain r1 where r1: "\<forall>f. fields_get fs1 f = fields_get fs f @ (if f = ''field_feelings'' then r1 else [])"
  proof (cases lab)
    case None
    then have "\<forall>f. fields_get fs1 f = fields_get fs f @ (if f = ''field_feelings'' then [] else [])"
      by (simp add: fs1_def)
    then show ?thesis by (rule that)
  next
    case (Some label)
    then have "\<forall>f. fields_get fs1 f =
        fields_get fs f @ (if f = ''field_feelings'' then (if label \<noteq> [] then [label] else []) else [])"
      by (simp add: fs1_def fields_get_setdefault_append)
    then show ?thesis by (rule that)
  qed
  from rest r1 have
    "\<forall>f. fields_get fs' f = fields_get fs f @ (if f = ''field_feelings'' then r1 @ rest else [])"
    by simp
  then show ?case by blast
qed

text \<open>
  C1. Let \<open>labels\<close> be the trimmed labels of the article's tags, in order. In the dict
  that \<open>classify_article\<close> returns, every field holds exactly the translations of the
  non-empty labels that the static map sends to that field, one entry per tag and in tag
  order (followed, for \<open>field_feelings\<close>, by the feelings). The field is looked up with
  the untranslated label, it is the one category group that lists the label, and the
  entry is the configured translation, or the label itself when none is configured.
\<close>

theorem classify_article_mapped_tags:
  assumes tags: "py_iter (py_or (py_get a ''tags'') (JArr [])) = Inr tags"
    and labels: "map tag_label tags = map Inr labels"
    and run: "classify_article (JObj a) = (w, Inr fs)"
  shows "(\<exists>rest. \<forall>f. fields_get fs f =
            map translate_label
              (filter (\<lambda>l. l \<noteq> [] \<and> TAG_LABEL_TO_FIELD l = Some f) labels) @
            (if f = ''field_feelings'' then rest else []))
       \<and> (\<forall>l f. TAG_LABEL_TO_FIELD l = Some f \<longrightarrow>
            map fst (filter (\<lambda>g. l \<in> set (snd g)) CATEGORY_MAP) = [f])
       \<and> (\<forall>l. translate_label l =
            (case map_of LABEL_TRANSLATION l of None \<Rightarrow> l | Some t \<Rightarrow> t))"
proof -
  define st1 where "st1 = fold classify_label labels ([], [])"
  have ct: "classify_tags tags ([], []) = Inr st1"
    unfolding st1_def by (rule classify_tags_fold [OF labels])
  obtain fs1 un where st1: "st1 = (fs1, un)" by (cases st1)
  from run tags ct st1 obtain feelings where
    "classify_feelings feelings fs1 = Inr fs"
    by (auto simp: classify_article_def Let_def split: sum.splits)
  from classify_feelings_fields [OF this] obtain rest where
    rest: "\<forall>f. fields_get fs f = fields_get fs1 f @ (if f = ''field_feelings'' then rest else [])"
    by blast
  have "fs1 = fst (fold classify_label labels ([], []))"
    using st1 st1_def by simp
  then have fs1: "\<And>f. fields_get fs1 f =
      map translate_label (filter (\<lambda>l. l \<noteq> [] \<and> TAG_LABEL_TO_FIELD l = Some f) labels)"
    using fold_classify_label_fields [of labels "([], [])"] by (simp add: fields_get_def)
  from rest fs1 have
    "\<exists>rest. \<forall>f. fields_get fs f =
        map translate_label (filter (\<lambda>l. l \<noteq> [] \<and> TAG_LABEL_TO_FIELD l = Some f) labels) @
        (if f = ''field_feelings'' then rest else [])"
    by auto
  moreover have "\<forall>l f. TAG_LABEL_TO_FIELD l = Some f \<longrightarrow>
      map fst (filter (\<lambda>g. l \<in> set (snd g)) CATEGORY_MAP) = [f]"
    by (simp add: TAG_LABEL_TO_FIELD_group)
  moreover have "\<forall>l. translate_label l =
      (case map_of LABEL_TRANSLATION l of None \<Rightarrow> l | Some t \<Rightarrow> t)"
    by (simp add: translate_label_def)
  ultimately show ?thesis by blast
qed

lemmas string_eval = strip_def is_space_def lstrip_slash_def rstrip_slash_def startswith_def

lemmas json_eval = py_get_def py_get_default_def py_or_def

lemmas classify_eval =
  classify_article_def classify_label_def tag_label_def feeling_label_def str_opt_truthy_def
  translate_label_def LABEL_TRANSLATION_def IGNORED_TAGS_def TAG_LABEL_TO_FIELD_find CATEGORY_MAP_def

theorem classify_article_mapped_tags_witness:
  "classify_article
     (JObj [(''tags'', JArr [JObj [(''label'', JStr '' Grief '')], JObj [(''label'', JStr ''Video'')]])])
     = (None, Inr [(''field_topics'', [''Grief & loss''])])
   \<and> fields_get [(''field_topics'', [''Grief & loss''])] ''field_topics'' =
       map translate_label
         (filter (\<lambda>l. l \<noteq> [] \<and> TAG_LABEL_TO_FIELD l = Some ''field_topics'') [''Grief'', ''Video''])
   \<and> TAG_LABEL_TO_FIELD ''Grief'' = Some ''field_topics''
   \<and> map fst (filter (\<lambda>g. ''Grief'' \<in> set (snd g)) CATEGORY_MAP) = [''field_topics'']
   \<and> translate_label ''Grief'' = ''Grief & loss''"
proof -
  define a where "a = [(''tags'', JArr [JObj [(''label'', JStr '' Grief '')], JObj [(''label'', JStr ''Video'')]])]"
  define tags where "tags = [JObj [(''label'', JStr '' Grief '')], JObj [(''label'', JStr ''Video'')]]"
  have h1: "py_iter (py_or (py_get a ''tags'') (JArr [])) = Inr tags"
    by (simp add: a_def tags_def json_eval)
  have h2: "map tag_label tags = map Inr [''Grief'', ''Video'']"
    by (simp add: tags_def tag_label_def json_eval string_eval)
  have h3: "classify_article (JObj a) = (None, Inr [(''field_topics'', [''Grief & loss''])])"
    by (simp add: a_def classify_eval json_eval string_eval)
  have g: "TAG_LABEL_TO_FIELD ''Grief'' = Some ''field_topics''"
    by (simp add: TAG_LABEL_TO_FIELD_find CATEGORY_MAP_def)
  have t: "translate_label ''Grief'' = ''Grief & loss''"
    by (simp add: translate_label_def LABEL_TRANSLATION_def)
  from classify_article_mapped_tags [OF h1 h2 h3] obtain rest where
    f: "\<forall>f. fields_get [(''field_topics'', [''Grief & loss''])] f =
          map translate_label
            (filter (\<lambda>l. l \<noteq> [] \<and> TAG_LABEL_TO_FIELD l = Some f) [''Grief'', ''Video'']) @
          (if f = ''field_feelings'' then rest else [])"
    and u: "\<forall>l f. TAG_LABEL_TO_FIELD l = Some f \<longrightarrow>
          map fst (filter (\<lambda>g. l \<in> set (snd g)) CATEGORY_MAP) = [f]"
    by blast
  from f have "fields_get [(''field_topics'', [''Grief & loss''])] ''field_topics'' =
       map translate_label
         (filter (\<lambda>l. l \<noteq> [] \<and> TAG_LABEL_TO_FIELD l = Some ''field_topics'') [''Grief'', ''Video''])"
    by simp
  moreover from u g have "map fst (filter (\<lambda>g. ''Grief'' \<in> set (snd g)) CATEGORY_MAP) = [''field_topics'']"
    by blast
  ultimately show ?thesis using h3 g t unfolding a_def by blast
qed

text \<open>
  C7. Let \<open>labels\<close> be the trimmed labels of the article's tags, in order.
  \<open>classify_article\<close> prints a warning exactly when some non-empty label is neither a
  key of the static map nor in \<open>IGNORED_TAGS\<close>; the one line lists all those labels, in
  order, after the article's title (or the placeholder). A label in \<open>IGNORED_TAGS\<close>
  changes neither the fields nor the list of unmapped labels.
\<close>

theorem classify_article_warning:
  assumes tags: "py_iter (py_or (py_get a ''tags'') (JArr [])) = Inr tags"
    and labels: "map tag_label tags = map Inr labels"
  shows "fst (classify_article (JObj a)) =
           (let unmapped =
                  filter (\<lambda>l. l \<noteq> [] \<and> TAG_LABEL_TO_FIELD l = None \<and> l \<notin> IGNORED_TAGS) labels
            in if unmapped = [] then None
               else Some (py_get_default a ''title'' (JStr ''?''), unmapped))
       \<and> (fst (classify_article (JObj a)) \<noteq> None \<longleftrightarrow>
            (\<exists>l \<in> set labels. l \<noteq> [] \<and> TAG_LABEL_TO_FIELD l = None \<and> l \<notin> IGNORED_TAGS))
       \<and> (\<forall>l st. l \<in> IGNORED_TAGS \<longrightarrow> classify_label l st = st)"
proof -
  define un where
    "un = filter (\<lambda>l. l \<noteq> [] \<and> TAG_LABEL_TO_FIELD l = None \<and> l \<notin> IGNORED_TAGS) labels"
  define st1 where "st1 = fold classify_label labels ([], [])"
  have ct: "classify_tags tags ([], []) = Inr st1"
    unfolding st1_def by (rule classify_tags_fold [OF labels])
  have "snd st1 = un"
    unfolding st1_def un_def by (simp add: fold_classify_label_unmapped)
  then obtain fs1 where st1: "st1 = (fs1, un)" by (cases st1) auto
  have w: "fst (classify_article (JObj a)) =
      (if un = [] then None else Some (py_get_default a ''title'' (JStr ''?''), un))"
    using tags ct st1 by (auto simp: classify_article_def Let_def split: sum.splits)
  have ex: "un \<noteq> [] \<longleftrightarrow>
      (\<exists>l \<in> set labels. l \<noteq> [] \<and> TAG_LABEL_TO_FIELD l = None \<and> l \<notin> IGNORED_TAGS)"
    unfolding un_def by (auto simp: filter_empty_conv)
  have ign: "\<forall>l st. l \<in> IGNORED_TAGS \<longrightarrow> classify_label l st = st"
    by (auto simp: classify_label_def Let_def str_opt_truthy_def TAG_LABEL_TO_FIELD_ignored)
  from w have "fst (classify_article (JObj a)) =
           (let unmapped =
                  filter (\<lambda>l. l \<noteq> [] \<and> TAG_LABEL_TO_FIELD l = None \<and> l \<notin> IGNORED_TAGS) labels
            in if unmapped = [] then None
               else Some (py_get_default a ''title'' (JStr ''?''), unmapped))"
    by (simp add: un_def Let_def)
  moreover from w ex have "fst (classify_article (JObj a)) \<noteq> None \<longleftrightarrow>
            (\<exists>l \<in> set labels. l \<noteq> [] \<and> TAG_LABEL_TO_FIELD l = None \<and> l \<notin> IGNORED_TAGS)"
    by (cases "un = []") auto
  ultimately show ?thesis using ign by blast
qed

theorem classify_article_warning_witness:
  "fst (classify_article
     (JObj [(''title'', JStr ''Coping''),
            (''tags'', JArr [JObj [(''label'', JStr ''Video'')], JObj [(''label'', JStr ''UnknownXYZ'')],
                            JObj [(''label'', JStr ''Grief'')], JObj [(''label'', JStr ''Other'')]])]))
     = Some (JStr ''Coping'', [''UnknownXYZ'', ''Other''])
   \<and> fst (classify_article (JObj [(''tags'', JArr [JObj [(''label'', JStr ''Audio'')]])])) = None
   \<and> classify_label ''Video'' ([], []) = ([], [])"
proof -
  define a1 where "a1 = [(''title'', JStr ''Coping''),
            (''tags'', JArr [JObj [(''label'', JStr ''Video'')], JObj [(''label'', JStr ''UnknownXYZ'')],
                            JObj [(''label'', JStr ''Grief'')], JObj [(''label'', JStr ''Other'')]])]"
  define t1 where "t1 = [JObj [(''label'', JStr ''Video'')], JObj [(''label'', JStr ''UnknownXYZ'')],
                            JObj [(''label'', JStr ''Grief'')], JObj [(''label'', JStr ''Other'')]]"
  define a2 where "a2 = [(''tags'', JArr [JObj [(''label'', JStr ''Audio'')]])]"
  have i1: "py_iter (py_or (py_get a1 ''tags'') (JArr [])) = Inr t1"
    by (simp add: a1_def t1_def json_eval)
  have l1: "map tag_label t1 = map Inr [''Video'', ''UnknownXYZ'', ''Grief'', ''Other'']"
    by (simp add: t1_def tag_label_def json_eval string_eval)
  have i2: "py_iter (py_or (py_get a2 ''tags'') (JArr [])) = Inr [JObj [(''label'', JStr ''Audio'')]]"
    by (simp add: a2_def json_eval)
  have l2: "map tag_label [JObj [(''label'', JStr ''Audio'')]] = map Inr [''Audio'']"
    by (simp add: tag_label_def json_eval string_eval)
  have v: "''Video'' \<in> IGNORED_TAGS" by (simp add: IGNORED_TAGS_def)
  have tg: "TAG_LABEL_TO_FIELD ''Grief'' = Some ''field_topics''"
      "TAG_LABEL_TO_FIELD ''UnknownXYZ'' = None" "TAG_LABEL_TO_FIELD ''Other'' = None"
    by (simp_all add: TAG_LABEL_TO_FIELD_find CATEGORY_MAP_def)
  have "fst (classify_article (JObj a1)) = Some (JStr ''Coping'', [''UnknownXYZ'', ''Other''])"
    using classify_article_warning [OF i1 l1] tg
    by (simp add: Let_def IGNORED_TAGS_def TAG_Video a1_def json_eval)
  moreover have "fst (classify_article (JObj a2)) = None"
    using classify_article_warning [OF i2 l2] by (simp add: Let_def IGNORED_TAGS_def)
  moreover have "classify_label ''Video'' ([], []) = ([], [])"
    using classify_article_warning [OF i2 l2] v by blast
  ultimately show ?thesis unfolding a1_def a2_def by blast
qed


section \<open>Properties of the main loop of prepare_data.py\<close>

lemma article_sanity_path_JObj:
  "article_sanity_path article = Inr p \<Longrightarrow> \<exists>a. article = JObj a"
  by (cases article) (auto simp: article_sanity_path_def)

lemma process_article_results:
  assumes "process_article pm article st0 = Inr st" and "r \<in> set (results st)"
  shows "r \<in> set (results st0) \<or>
         (article_sanity_path article = Inr (r_sanity_path r) \<and> r_title r = article_title article
          \<and> pm (r_sanity_path r) = Some (r_drupal_path r) \<and> r_drupal_path r \<noteq> []
          \<and> snd (classify_article article) = Inr (r_fields r) \<and> r_fields r \<noteq> [])"
proof -
  from assms(1) obtain p where p: "article_sanity_path article = Inr p"
    by (cases "article_sanity_path article") (auto simp: process_article_def)
  show ?thesis
  proof (cases "str_opt_truthy (pm p)")
    case False
    with assms p show ?thesis by (auto simp: process_article_def)
  next
    case True
    then obtain d where d: "pm p = Some d" "d \<noteq> []"
      by (auto simp: str_opt_truthy_def split: option.splits)
    obtain w res where c: "classify_article article = (w, res)" by (cases "classify_article article")
    with assms(1) p True obtain fs where fs: "res = Inr fs"
      by (cases res) (auto simp: process_article_def)
    from assms p True c fs d show ?thesis
      by (auto simp: process_article_def split: if_splits)
  qed
qed

lemma process_articles_results:
  "process_articles pm articles st0 = Inr st \<Longrightarrow> r \<in> set (results st) \<Longrightarrow>
     r \<in> set (results st0) \<or>
     (\<exists>article \<in> set articles.
        article_sanity_path article = Inr (r_sanity_path r) \<and> r_title r = article_title article
        \<and> pm (r_sanity_path r) = Some (r_drupal_path r) \<and> r_drupal_path r \<noteq> []
        \<and> snd (classify_article article) = Inr (r_fields r) \<and> r_fields r \<noteq> [])"
proof (induction articles arbitrary: st0)
  case Nil
  then show ?case by simp
next
  case (Cons x xs)
  from Cons.prems(1) obtain st1 where
    x: "process_article pm x st0 = Inr st1" and xs: "process_articles pm xs st1 = Inr st"
    by (cases "process_article pm x st0") auto
  from Cons.IH [OF xs Cons.prems(2)] process_article_results [OF x, of r]
  show ?case by auto
qed

text \<open>
  C10. Every result that the loop of \<open>main\<close> emits comes from an article of the export
  (a dict whose stripped path is the result's \<open>sanity_path\<close>), and its title is that
  article's \<open>title\<close> value if it is truthy, otherwise its \<open>name\<close> value if that is
  truthy, otherwise the empty string.
\<close>

theorem result_title:
  assumes "process_articles pm articles init_state = Inr st"
    and "r \<in> set (results st)"
  shows "\<exists>a. JObj a \<in> set articles
           \<and> article_sanity_path (JObj a) = Inr (r_sanity_path r)
           \<and> r_title r =
               (if truthy (py_get a ''title'') then py_get a ''title''
                else if truthy (py_get a ''name'') then py_get a ''name''
                else JStr [])"
proof -
  from process_articles_results [OF assms] obtain article where
    a: "article \<in> set articles" "article_sanity_path article = Inr (r_sanity_path r)"
       "r_title r = article_title article"
    by (auto simp: init_state_def)
  from article_sanity_path_JObj [OF a(2)] obtain d where d: "article = JObj d" by blast
  have "article_title (JObj d) =
      (if truthy (py_get d ''title'') then py_get d ''title''
       else if truthy (py_get d ''name'') then py_get d ''name'' else JStr [])"
    by (simp add: article_title_def py_or_def)
  with a d show ?thesis by auto
qed

lemmas main_eval =
  prepare_data_main_def load_path_mapping_def row_field_def process_article_def
  article_sanity_path_def article_title_def init_state_def

theorem result_title_witness:
  "process_articles [''foo'' \<mapsto> ''d/foo'']
     [JObj [(''path'', JStr ''/foo''), (''name'', JStr ''N''),
            (''tags'', JArr [JObj [(''label'', JStr ''Grief'')]])]] init_state
     = Inr \<lparr>results = [\<lparr>r_drupal_path = ''d/foo'', r_sanity_path = ''foo'', r_title = JStr ''N'',
                          r_fields = [(''field_topics'', [''Grief & loss''])]\<rparr>],
            matched = 1, unmatched_paths = [], warnings = []\<rparr>
   \<and> (\<exists>a. JObj a \<in> set [JObj [(''path'', JStr ''/foo''), (''name'', JStr ''N''),
                                (''tags'', JArr [JObj [(''label'', JStr ''Grief'')]])]]
          \<and> JStr ''N'' =
               (if truthy (py_get a ''title'') then py_get a ''title''
                else if truthy (py_get a ''name'') then py_get a ''name''
                else JStr []))"
proof -
  define arts where "arts = [JObj [(''path'', JStr ''/foo''), (''name'', JStr ''N''),
            (''tags'', JArr [JObj [(''label'', JStr ''Grief'')]])]]"
  define r where "r = \<lparr>r_drupal_path = ''d/foo'', r_sanity_path = ''foo'', r_title = JStr ''N'',
                          r_fields = [(''field_topics'', [''Grief & loss''])]\<rparr>"
  define st where "st = \<lparr>results = [r], matched = 1, unmatched_paths = [], warnings = []\<rparr>"
  have h1: "process_articles [''foo'' \<mapsto> ''d/foo''] arts init_state = Inr st"
    by (simp add: arts_def st_def r_def main_eval classify_eval json_eval string_eval)
  have h2: "r \<in> set (results st)" by (simp add: st_def)
  from result_title [OF h1 h2] have
    "\<exists>a. JObj a \<in> set arts \<and> r_title r =
        (if truthy (py_get a ''title'') then py_get a ''title''
         else if truthy (py_get a ''name'') then py_get a ''name'' else JStr [])"
    by blast
  then show ?thesis using h1 unfolding arts_def st_def r_def by simp
qed

lemma process_article_counts:
  assumes "article_sanity_path article = Inr p" and "process_article pm article st0 = Inr st"
  shows "matched st = matched st0 + (if str_opt_truthy (pm p) then 1 else 0)"
    and "unmatched_paths st = unmatched_paths st0 @ (if str_opt_truthy (pm p) then [] else [p])"
    and "map r_sanity_path (results st) =
           map r_sanity_path (results st0) @
           (if str_opt_truthy (pm p) \<and> snd (classify_article article) \<noteq> Inr [] then [p] else [])"
  using assms
  by (auto simp: process_article_def Let_def split: sum.splits prod.splits if_splits)

lemma process_articles_counts:
  assumes "map article_sanity_path articles = map Inr paths"
    and "process_articles pm articles st0 = Inr st"
  shows "matched st = matched st0 + length (filter (\<lambda>p. str_opt_truthy (pm p)) paths)
       \<and> unmatched_paths st = unmatched_paths st0 @ filter (\<lambda>p. \<not> str_opt_truthy (pm p)) paths
       \<and> map r_sanity_path (results st) =
           map r_sanity_path (results st0) @
           map snd (filter (\<lambda>ap. str_opt_truthy (pm (snd ap)) \<and> snd (classify_article (fst ap)) \<noteq> Inr [])
                      (zip articles paths))"
  using assms
proof (induction articles arbitrary: paths st0)
  case Nil
  then show ?case by simp
next
  case (Cons x xs)
  from Cons.prems(1) obtain p ps where ps: "paths = p # ps" "article_sanity_path x = Inr p"
      "map article_sanity_path xs = map Inr ps"
    by (cases paths) auto
  from Cons.prems(2) obtain st1 where
    x: "process_article pm x st0 = Inr st1" and xs: "process_articles pm xs st1 = Inr st"
    by (cases "process_article pm x st0") auto
  note s = process_article_counts [OF ps(2) x]
  from Cons.IH [OF ps(3) xs] show ?case
    unfolding ps(1) by (simp add: s)
qed

text \<open>
  C5, as amended. Let \<open>paths\<close> be the stripped paths of the articles, in order. The
  \<open>matched\<close> total counts the articles whose path has an entry with a non-empty Drupal
  path, whether or not \<open>classify_article\<close> returns any field; the results hold only those
  of them with a non-empty field dict; and \<open>unmatched_paths\<close> lists exactly the paths
  with no entry or with an entry whose Drupal path is empty (\<open>str_opt_truthy\<close> is false
  for both).
\<close>

theorem matched_and_unmatched:
  assumes "map article_sanity_path articles = map Inr paths"
    and "process_articles pm articles init_state = Inr st"
  shows "matched st = length (filter (\<lambda>p. str_opt_truthy (pm p)) paths)
       \<and> unmatched_paths st = filter (\<lambda>p. \<not> str_opt_truthy (pm p)) paths
       \<and> map r_sanity_path (results st) =
           map snd (filter (\<lambda>ap. str_opt_truthy (pm (snd ap)) \<and> snd (classify_article (fst ap)) \<noteq> Inr [])
                      (zip articles paths))"
  using process_articles_counts [OF assms] by (simp add: init_state_def)

theorem matched_and_unmatched_witness:
  "process_articles [''foo'' \<mapsto> ''d/foo'', ''bar'' \<mapsto> []]
     [JObj [(''path'', JStr ''/foo'')], JObj [(''path'', JStr ''/bar'')], JObj [(''path'', JStr ''baz'')]]
     init_state
     = Inr \<lparr>results = [], matched = 1, unmatched_paths = [''bar'', ''baz''], warnings = []\<rparr>
   \<and> (1::nat) = length (filter (\<lambda>p. str_opt_truthy ([''foo'' \<mapsto> ''d/foo'', ''bar'' \<mapsto> []] p))
                          [''foo'', ''bar'', ''baz''])
   \<and> [''bar'', ''baz''] = filter (\<lambda>p. \<not> str_opt_truthy ([''foo'' \<mapsto> ''d/foo'', ''bar'' \<mapsto> []] p))
                          [''foo'', ''bar'', ''baz'']"
proof -
  define arts where "arts =
    [JObj [(''path'', JStr ''/foo'')], JObj [(''path'', JStr ''/bar'')], JObj [(''path'', JStr ''baz'')]]"
  define pm :: "string \<rightharpoonup> string" where "pm = [''foo'' \<mapsto> ''d/foo'', ''bar'' \<mapsto> []]"
  define st where "st = \<lparr>results = [], matched = 1, unmatched_paths = [''bar'', ''baz''], warnings = []\<rparr>"
  have h1: "map article_sanity_path arts = map Inr [''foo'', ''bar'', ''baz'']"
    by (simp add: arts_def article_sanity_path_def json_eval string_eval)
  have h2: "process_articles pm arts init_state = Inr st"
    by (simp add: arts_def pm_def st_def main_eval classify_eval json_eval string_eval)
  from matched_and_unmatched [OF h1 h2] h2 show ?thesis
    unfolding arts_def pm_def st_def by simp
qed

text \<open>
  C5 as stated fails where the table has an entry whose Drupal path is empty: the
  article's path has an entry, yet it is listed as unmatched and not counted as matched.
\<close>

theorem empty_drupal_path_counterexample:
  "load_path_mapping [[(''sanity-path'', Some ''foo''), (''drupal-path'', Some [])]]
     = Inr [''foo'' \<mapsto> []]
   \<and> prepare_data_main (JObj [(''articles'', JArr [JObj [(''path'', JStr ''/foo'')]])])
       [[(''sanity-path'', Some ''foo''), (''drupal-path'', Some [])]]
     = Inr \<lparr>results = [], matched = 0, unmatched_paths = [''foo''], warnings = []\<rparr>"
  by (simp add: main_eval json_eval string_eval str_opt_truthy_def)

text \<open>
  C4. The row whose sanity path is the relative path \<open>httpdocs/intro\<close> is left out of
  the mapping, because the test is the prefix \<open>http\<close>; \<open>normalize_url\<close>, which tests
  for \<open>http://\<close> and \<open>https://\<close>, treats the same path as relative.
\<close>

theorem load_path_mapping_http_prefix:
  "load_path_mapping [[(''sanity-path'', Some ''httpdocs/intro''), (''drupal-path'', Some ''intro'')]]
     = Inr Map.empty
   \<and> normalize_url ''https://www.lifeline.org.au'' ''httpdocs/intro''
     = ''https://www.lifeline.org.au/httpdocs/intro''"
  by (simp add: load_path_mapping_def row_field_def normalize_url_def string_eval)


section \<open>Properties of get_node_ids.py\<close>

lemma pad_row_eq: "pad_row m row = row @ replicate (Suc m - length row) []"
proof (induction m row rule: pad_row.induct)
  case (1 m row)
  show ?case
  proof (cases "length row \<le> m")
    case True
    then have "Suc m - length row = Suc (m - length row)" by simp
    with True 1 show ?thesis
      by (subst pad_row.simps) (simp add: replicate_append_same)
  next
    case False
    then show ?thesis by (subst pad_row.simps) simp
  qed
qed

lemma length_pad_row: "m < length (pad_row m row)"
  by (simp add: pad_row_eq)

lemma pad_row_long: "m < length row \<Longrightarrow> pad_row m row = row"
  by (simp add: pad_row_eq)

lemma feed_Some: "feed (Some x) ts = Some x"
  by (induction ts) (auto simp: handle_starttag_def)

lemma feed_None:
  "feed None html =
     (case find (\<lambda>t. lower (fst t) = ''article''
                     \<and> str_opt_truthy (attr_get (snd t) ''data-history-node-id'')) html of
        None \<Rightarrow> None
      | Some t \<Rightarrow> Some (strip (the (attr_get (snd t) ''data-history-node-id''))))"
proof (induction html)
  case Nil
  show ?case by simp
next
  case (Cons t ts)
  obtain tag attrs where t: "t = (tag, attrs)" by (cases t)
  show ?case
    unfolding t using Cons.IH by (simp add: handle_starttag_def Let_def feed_Some)
qed

lemma process_rows_map:
  "process_rows u a n e tot i rows (upd, out) =
     (upd @ map (\<lambda>jr. fst (process_row u a n e tot (fst jr) (snd jr))) (enumerate i rows),
      out @ map (\<lambda>jr. snd (process_row u a n e tot (fst jr) (snd jr))) (enumerate i rows))"
  by (induction rows arbitrary: i upd out) (auto split: prod.splits)

lemma index_of_mem: "name \<in> set h \<Longrightarrow> index_of h name < length h \<and> h ! index_of h name = name"
  by (induction h) auto

lemma index_of_append: "name \<in> set h \<Longrightarrow> index_of (h @ xs) name = index_of h name"
  by (induction h) auto

lemma index_of_pos: "h \<noteq> [] \<Longrightarrow> hd h \<noteq> name \<Longrightarrow> 0 < index_of h name"
  by (cases h) auto

lemma index_of_fresh: "name \<notin> set h \<Longrightarrow> index_of (h @ [name]) name = length h"
  by (induction h) auto

lemma ensure_column_props:
  assumes "ensure_column h name = (h', k)"
  shows "k < length h'" and "h' ! k = name" and "name \<in> set h'" and "ensure_column h' name = (h', k)"
    and "set h \<subseteq> set h'" and "h \<noteq> [] \<Longrightarrow> hd h' = hd h"
    and "h \<noteq> [] \<Longrightarrow> hd h \<noteq> name \<Longrightarrow> k \<noteq> 0"
    and "\<And>other j. other \<in> set h \<Longrightarrow> index_of h' other = index_of h other"
  using assms
  by (auto simp: ensure_column_def index_of_mem index_of_append index_of_pos index_of_fresh
                 nth_append split: if_splits)

lemma ensure_columns_props:
  assumes "ensure_columns h = (h', n, e)"
  shows "n < length h'" and "e < length h'" and "n \<noteq> e" and "ensure_columns h' = (h', n, e)"
    and "h \<noteq> [] \<Longrightarrow> hd h \<noteq> ''node-id'' \<Longrightarrow> hd h \<noteq> ''edit-link'' \<Longrightarrow> n \<noteq> 0 \<and> e \<noteq> 0"
proof -
  obtain h1 where 1: "ensure_column h ''node-id'' = (h1, n)"
    and 2: "ensure_column h1 ''edit-link'' = (h', e)"
    using assms by (auto simp: ensure_columns_def split: prod.splits)
  note p1 = ensure_column_props [OF 1] and p2 = ensure_column_props [OF 2]
  have n': "index_of h' ''node-id'' = n"
    using p2(8) [OF p1(3)] p1(4) p1(3) by (simp add: ensure_column_def)
  have "length h1 \<le> length h'" using 2 by (auto simp: ensure_column_def split: if_splits)
  with p1(1) show "n < length h'" by simp
  show "e < length h'" by (rule p2(1))
  have mem: "''node-id'' \<in> set h'" using p1(3) p2(5) by auto
  from index_of_mem [OF mem] n' have "h' ! n = ''node-id''" by simp
  with p2(2) show "n \<noteq> e" by auto
  from mem n' p2(4) show "ensure_columns h' = (h', n, e)"
    by (simp add: ensure_columns_def ensure_column_def)
  assume h: "h \<noteq> []" "hd h \<noteq> ''node-id''" "hd h \<noteq> ''edit-link''"
  from p1(7) [OF h(1) h(2)] have "n \<noteq> 0" .
  moreover have "h1 \<noteq> []" using p1(1) by auto
  moreover have "hd h1 = hd h" using p1(6) h(1) by simp
  ultimately show "n \<noteq> 0 \<and> e \<noteq> 0" using p2(7) h(3) by simp
qed

lemma pad_row_nonempty: "pad_row m row \<noteq> []"
  using length_pad_row [of m row] by auto

lemma fst_process_row:
  "fst (process_row u a n e t i r) =
     (let row = pad_row (max n e) r; path = strip (row ! 0)
      in if (skip_existing a \<and> strip (row ! n) \<noteq> []) \<or> path = [] then row
         else
           (case fetch_node_id u (normalize_url (base_url a) path) of
              Inr nid \<Rightarrow>
                if str_opt_truthy nid
                then row[n := the nid, e := rstrip_slash (base_url a) @ ''/node/'' @ the nid @ ''/edit'']
                else row[n := [], e := []]
            | Inl exc \<Rightarrow> row[n := [], e := []]))"
  by (auto simp: process_row_def Let_def pad_row_nonempty split: sum.splits)

lemma list_update_twice_same:
  "n \<noteq> e \<Longrightarrow> xs[n := v, e := w, n := v, e := w] = xs[n := v, e := w]"
proof -
  assume "n \<noteq> e"
  then have "xs[n := v, e := w, n := v] = xs[n := v, n := v, e := w]"
    by (metis list_update_swap)
  then show ?thesis by simp
qed

lemma process_row_idem:
  assumes ne: "n \<noteq> e" and n0: "n \<noteq> 0" and e0: "e \<noteq> 0"
  shows "fst (process_row u a n e t2 i2 (fst (process_row u a n e t1 i1 r))) =
         fst (process_row u a n e t1 i1 r)"
proof -
  define row where "row = pad_row (max n e) r"
  define path where "path = strip (row ! 0)"
  define vw where "vw =
    (case fetch_node_id u (normalize_url (base_url a) path) of
       Inr nid \<Rightarrow>
         if str_opt_truthy nid
         then (the nid, rstrip_slash (base_url a) @ ''/node/'' @ the nid @ ''/edit'')
         else ([], [])
     | Inl exc \<Rightarrow> ([], []))"
  have len: "max n e < length row" unfolding row_def by (rule length_pad_row)
  have step: "\<And>t i r0. pad_row (max n e) r0 = r0 \<Longrightarrow> strip (r0 ! 0) = path \<Longrightarrow>
      fst (process_row u a n e t i r0) =
        (if (skip_existing a \<and> strip (r0 ! n) \<noteq> []) \<or> path = [] then r0
         else r0[n := fst vw, e := snd vw])"
    by (simp add: fst_process_row Let_def vw_def split: sum.splits)
  have first: "fst (process_row u a n e t1 i1 r) =
        (if (skip_existing a \<and> strip (row ! n) \<noteq> []) \<or> path = [] then row
         else row[n := fst vw, e := snd vw])"
    by (simp add: fst_process_row Let_def vw_def row_def [symmetric] path_def [symmetric]
             split: sum.splits)
  show ?thesis
  proof (cases "(skip_existing a \<and> strip (row ! n) \<noteq> []) \<or> path = []")
    case True
    have "pad_row (max n e) row = row" using len by (rule pad_row_long)
    from step [OF this] True first show ?thesis by (simp add: path_def)
  next
    case False
    define r1 where "r1 = row[n := fst vw, e := snd vw]"
    have r1: "fst (process_row u a n e t1 i1 r) = r1" using first False by (simp add: r1_def)
    have "max n e < length r1" using len by (simp add: r1_def)
    then have p: "pad_row (max n e) r1 = r1" by (rule pad_row_long)
    have z: "strip (r1 ! 0) = path" using n0 e0 by (simp add: r1_def path_def)
    have "r1[n := fst vw, e := snd vw] = r1"
      unfolding r1_def using ne by (rule list_update_twice_same)
    with step [OF p z] r1 show ?thesis by simp
  qed
qed

lemma main_table:
  assumes "rows \<noteq> []" and "ensure_columns (hd rows) = (h, n, e)"
  shows "get_node_ids_main u a (Some rows) =
     Inr (h # map (\<lambda>jr. fst (process_row u a n e (length rows - 1) (fst jr) (snd jr)))
                (enumerate 1 (tl rows)),
          map (\<lambda>jr. snd (process_row u a n e (length rows - 1) (fst jr) (snd jr)))
                (enumerate 1 (tl rows)))"
  using assms by (simp add: get_node_ids_main_def process_rows_map)

lemma main_nth:
  assumes "rows \<noteq> []" and "ensure_columns (hd rows) = (h, n, e)"
    and "get_node_ids_main u a (Some rows) = Inr (table, out)"
  shows "length table = length rows" and "length out = length rows - 1" and "hd table = h"
    and "\<And>k. 0 < k \<Longrightarrow> k < length rows \<Longrightarrow>
          table ! k = fst (process_row u a n e (length rows - 1) k (rows ! k))
          \<and> out ! (k - 1) = snd (process_row u a n e (length rows - 1) k (rows ! k))"
proof -
  note t = assms(3) [unfolded main_table [OF assms(1,2)]]
  from t assms(1) show "length table = length rows" by auto
  from t show "length out = length rows - 1" by auto
  from t show "hd table = h" by auto
  fix k assume k: "0 < k" "k < length rows"
  then obtain j where j: "k = Suc j" by (cases k) auto
  with k have jl: "j < length (tl rows)" by simp
  have "tl rows ! j = rows ! k" using jl j by (simp add: nth_tl)
  with t j jl show "table ! k = fst (process_row u a n e (length rows - 1) k (rows ! k))
          \<and> out ! (k - 1) = snd (process_row u a n e (length rows - 1) k (rows ! k))"
    by (auto simp: nth_enumerate_eq)
qed

lemmas resolver_eval =
  get_node_ids_main_def ensure_columns_def ensure_column_def process_row_def pad_row_eq
  fetch_node_id_def normalize_url_def handle_starttag_def attr_get_def str_opt_truthy_def
  lower_def lower_char_def upper_chars_def lower_chars_def

lemma find_append_cases:
  "find P (xs @ ys) = (case find P xs of None \<Rightarrow> find P ys | Some x \<Rightarrow> Some x)"
  by (induction xs) auto

text \<open>
  C3, as amended. The parser acts on the first start tag, in document order, whose name
  is \<open>article\<close> (case-insensitive) and that carries a \<open>data-history-node-id\<close>
  attribute with a non-empty value: it stores the trimmed value and ignores every later
  tag. An \<open>article\<close> tag without the attribute, or with an empty value, is passed over
  and scanning goes on; when no \<open>article\<close> tag carries a non-empty value the result
  is \<open>None\<close>.
\<close>

theorem feed_first_article_with_attribute:
  "feed None html =
     (case find (\<lambda>t. lower (fst t) = ''article''
                     \<and> str_opt_truthy (attr_get (snd t) ''data-history-node-id'')) html of
        None \<Rightarrow> None
      | Some t \<Rightarrow> Some (strip (the (attr_get (snd t) ''data-history-node-id''))))
   \<and> feed (Some x) html = Some x"
  by (simp add: feed_None feed_Some)

theorem feed_first_article_with_attribute_witness:
  "feed None [(''div'', [(''data-history-node-id'', Some ''1'')]), (''ARTICLE'', [(''class'', None)]),
              (''Article'', [(''data-history-node-id'', Some '' 482 '')]),
              (''article'', [(''data-history-node-id'', Some ''9'')])] = Some ''482''"
  using feed_first_article_with_attribute
    [of "[(''div'', [(''data-history-node-id'', Some ''1'')]), (''ARTICLE'', [(''class'', None)]),
          (''Article'', [(''data-history-node-id'', Some '' 482 '')]),
          (''article'', [(''data-history-node-id'', Some ''9'')])]"]
  by (simp add: attr_get_def str_opt_truthy_def lower_def lower_char_def upper_chars_def
        lower_chars_def string_eval)

text \<open>
  C3 as stated fails where the first \<open>article\<close> tag lacks the attribute and a later one
  carries it: the later tag is consulted and its value returned, where acting on the
  first tag only would find nothing.
\<close>

theorem later_article_counterexample:
  "feed None [(''article'', []), (''article'', [(''data-history-node-id'', Some ''482'')])]
     = Some ''482''
   \<and> first_article_only [(''article'', []), (''article'', [(''data-history-node-id'', Some ''482'')])]
     = None"
  by (simp add: first_article_only_def resolver_eval string_eval)

text \<open>
  C9. When the first \<open>article\<close> tag of the page carries the attribute with a value that
  is non-empty but all whitespace, the parser ends with the empty string whatever tags
  follow, and a row that is fetched (not skipped, with a non-empty path) gets the empty
  string in both its node-id and edit-link cells, with the line "not found".
\<close>

theorem whitespace_node_id:
  assumes pre: "\<forall>t \<in> set pre. lower (fst t) \<noteq> ''article''"
    and tag: "lower tag = ''article''"
    and attr: "attr_get attrs ''data-history-node-id'' = Some v"
    and v: "v \<noteq> []" "strip v = []"
    and row: "row = pad_row (max n e) row0"
    and noskip: "\<not> (skip_existing a \<and> strip (row ! n) \<noteq> [])"
    and path: "strip (row ! 0) \<noteq> []"
    and page: "urlopen (normalize_url (base_url a) (strip (row ! 0))) = Inr (pre @ (tag, attrs) # rest)"
  shows "feed None (pre @ (tag, attrs) # rest) = Some []
       \<and> process_row urlopen a n e tot i row0 =
           (row[n := [], e := []], NotFound i tot (strip (row ! 0)))
       \<and> row[n := [], e := []] ! n = [] \<and> row[n := [], e := []] ! e = []"
proof -
  have "find (\<lambda>t. lower (fst t) = ''article''
                     \<and> str_opt_truthy (attr_get (snd t) ''data-history-node-id'')) pre = None"
    using pre by (force simp: find_None_iff)
  then have f: "feed None (pre @ (tag, attrs) # rest) = Some []"
    using tag attr v by (simp add: feed_None find_append_cases str_opt_truthy_def)
  have len: "max n e < length row" unfolding row by (rule length_pad_row)
  then have ne: "row \<noteq> []" by auto
  have "process_row urlopen a n e tot i row0 =
           (row[n := [], e := []], NotFound i tot (strip (row ! 0)))"
    using noskip path page f ne
    by (simp add: process_row_def Let_def row [symmetric] fetch_node_id_def str_opt_truthy_def)
  moreover have "row[n := [], e := []] ! n = []" "row[n := [], e := []] ! e = []"
    using len by (auto simp: nth_list_update)
  ultimately show ?thesis using f by blast
qed

lemma main_rows_nonempty: "get_node_ids_main u a (Some rows) = Inr r \<Longrightarrow> rows \<noteq> []"
  by (auto simp: get_node_ids_main_def split: if_splits)

text \<open>
  C2, as amended. With \<open>--skip-existing\<close>, a data row whose node-id cell is non-empty
  after trimming is written as the input row extended on the right with empty cells up
  to the edit-link column; it is the input row itself when that row already reaches the
  edit-link column. The line printed for it is "skip".
\<close>

theorem skip_existing_row:
  assumes run: "get_node_ids_main urlopen a (Some rows) = Inr (table, out)"
    and cols: "ensure_columns (hd rows) = (header, n, e)"
    and k: "0 < k" "k < length rows"
    and skip: "skip_existing a"
    and cell: "n < length (rows ! k)" "strip (rows ! k ! n) \<noteq> []"
  shows "table ! k = rows ! k @ replicate (Suc e - length (rows ! k)) []
       \<and> (e < length (rows ! k) \<longrightarrow> table ! k = rows ! k)
       \<and> out ! (k - 1) = Skipped k (length rows - 1) (strip (table ! k ! 0))"
proof -
  define row where "row = pad_row (max n e) (rows ! k)"
  have "Suc (max n e) - length (rows ! k) = Suc e - length (rows ! k)"
    using cell(1) by (auto simp: max_def)
  then have row_eq: "row = rows ! k @ replicate (Suc e - length (rows ! k)) []"
    by (simp add: row_def pad_row_eq)
  then have "row ! n = rows ! k ! n" using cell(1) by (simp add: nth_append)
  moreover have "row \<noteq> []" unfolding row_def by (rule pad_row_nonempty)
  ultimately have "process_row urlopen a n e (length rows - 1) k (rows ! k) =
      (row, Skipped k (length rows - 1) (strip (row ! 0)))"
    using cell(2) skip by (simp add: process_row_def Let_def row_def [symmetric])
  with main_nth(4) [OF main_rows_nonempty [OF run] cols run k]
  have "table ! k = row" "out ! (k - 1) = Skipped k (length rows - 1) (strip (row ! 0))"
    by simp_all
  with row_eq show ?thesis by simp
qed

theorem skip_existing_row_witness:
  "get_node_ids_main (\<lambda>url. Inl ''unreachable'')
     \<lparr>base_url = ''https://www.lifeline.org.au'', skip_existing = True\<rparr>
     (Some [[''drupal-path'', ''node-id'', ''edit-link''],
            [''team/a'', ''482'', ''https://www.lifeline.org.au/node/482/edit'']])
     = Inr ([[''drupal-path'', ''node-id'', ''edit-link''],
             [''team/a'', ''482'', ''https://www.lifeline.org.au/node/482/edit'']],
            [Skipped 1 1 ''team/a''])"
proof -
  define u :: fetcher where "u = (\<lambda>url. Inl ''unreachable'')"
  define a where "a = \<lparr>base_url = ''https://www.lifeline.org.au'', skip_existing = True\<rparr>"
  define h where "h = [''drupal-path'', ''node-id'', ''edit-link'']"
  define r where "r = [''team/a'', ''482'', ''https://www.lifeline.org.au/node/482/edit'']"
  have cols: "ensure_columns (hd [h, r]) = (h, 1, 2)"
    by (simp add: h_def ensure_columns_def ensure_column_def)
  from main_table [OF _ cols, of u a]
  obtain table out where run: "get_node_ids_main u a (Some [h, r]) = Inr (table, out)"
    by simp
  have c: "1 < length ([h, r] ! 1)" "strip ([h, r] ! 1 ! 1) \<noteq> []"
    by (simp_all add: r_def string_eval)
  have s: "skip_existing a" by (simp add: a_def)
  from skip_existing_row [OF run cols _ _ s c]
  have t: "table ! 1 = r" and o: "out ! 0 = Skipped 1 1 (strip (table ! 1 ! 0))"
    by (simp_all add: r_def)
  from main_nth(1-3) [OF _ cols run] have l: "length table = 2" "length out = 1" "hd table = h"
    by simp_all
  from l(1,3) t have "table = [h, r]"
    by (cases table; cases "tl table") (auto simp: Suc_length_conv)
  moreover from l(2) o t have "out = [Skipped 1 1 ''team/a'']"
    by (cases out) (auto simp: r_def string_eval)
  ultimately show ?thesis using run unfolding u_def a_def h_def r_def by simp
qed

text \<open>
  C2 as stated fails where the header has no \<open>edit-link\<close> column: the skipped row is
  written with one more (empty) cell than it had.
\<close>

theorem skip_existing_padded_counterexample:
  "get_node_ids_main (\<lambda>url. Inl ''unreachable'')
     \<lparr>base_url = ''https://www.lifeline.org.au'', skip_existing = True\<rparr>
     (Some [[''drupal-path'', ''node-id''], [''team/a'', ''482'']])
     = Inr ([[''drupal-path'', ''node-id'', ''edit-link''], [''team/a'', ''482'', []]],
            [Skipped 1 1 ''team/a''])
   \<and> [''team/a'', ''482'', []] \<noteq> [''team/a'', ''482'']"
  by (simp add: resolver_eval string_eval Let_def)

theorem whitespace_node_id_witness:
  "feed None [(''div'', []), (''Article'', [(''data-history-node-id'', Some ''  '')]),
              (''article'', [(''data-history-node-id'', Some ''482'')])] = Some []
   \<and> process_row
        (\<lambda>url. Inr [(''div'', []), (''Article'', [(''data-history-node-id'', Some ''  '')]),
                     (''article'', [(''data-history-node-id'', Some ''482'')])])
        \<lparr>base_url = ''https://x.org'', skip_existing = False\<rparr> 1 2 1 1 [''team/a'', ''7'']
      = ([''team/a'', [], []], NotFound 1 1 ''team/a'')"
proof -
  define pre :: "start_tag list" where "pre = [(''div'', [])]"
  define attrs where "attrs = [(''data-history-node-id'', Some ''  '')]"
  define rest :: "start_tag list" where "rest = [(''article'', [(''data-history-node-id'', Some ''482'')])]"
  define u :: fetcher where "u = (\<lambda>url. Inr (pre @ (''Article'', attrs) # rest))"
  define a where "a = \<lparr>base_url = ''https://x.org'', skip_existing = False\<rparr>"
  define row where "row = pad_row (max 1 2) [''team/a'', ''7'']"
  have row_eq: "row = [''team/a'', ''7'', []]"
    by (simp add: row_def pad_row_eq)
  have h1: "\<forall>t \<in> set pre. lower (fst t) \<noteq> ''article''"
    by (simp add: pre_def lower_def lower_char_def upper_chars_def lower_chars_def)
  have h2: "lower ''Article'' = ''article''"
    by (simp add: lower_def lower_char_def upper_chars_def lower_chars_def)
  have h3: "attr_get attrs ''data-history-node-id'' = Some ''  ''"
    by (simp add: attrs_def attr_get_def)
  have h4: "''  '' \<noteq> []" "strip ''  '' = []" by (simp_all add: string_eval)
  have h5: "\<not> (skip_existing a \<and> strip (row ! 1) \<noteq> [])" by (simp add: a_def)
  have h6: "strip (row ! 0) \<noteq> []" by (simp add: row_eq string_eval)
  have h7: "u (normalize_url (base_url a) (strip (row ! 0))) = Inr (pre @ (''Article'', attrs) # rest)"
    by (simp add: u_def)
  from whitespace_node_id [where pre = pre and tag = "''Article''" and attrs = attrs
      and v = "''  ''" and row = row and n = 1 and e = 2 and ?row0.0 = "[''team/a'', ''7'']"
      and a = a and urlopen = u and rest = rest and tot = 1 and i = 1,
      OF h1 h2 h3 h4 row_def h5 h6 h7]
  have "feed None (pre @ (''Article'', attrs) # rest) = Some []"
    and "process_row u a 1 2 1 1 [''team/a'', ''7''] = (row[1 := [], 2 := []], NotFound 1 1 (strip (row ! 0)))"
    by blast+
  then show ?thesis
    unfolding u_def a_def pre_def attrs_def rest_def row_eq by (simp add: string_eval)
qed

text \<open>
  C6. On a table with a header, take a data row that is fetched (not skipped, with a
  non-empty path) and whose fetch raises. The run still returns the table, with as many
  rows as it read and one line per data row; that row is written with the empty string
  in its node-id and edit-link cells; its line is the error line carrying the row's
  index, the total, its path and the exception; and every data row, before or after it,
  is written and reported as the loop body alone determines.
\<close>

theorem fetch_failure_row:
  assumes rows: "rows \<noteq> []"
    and cols: "ensure_columns (hd rows) = (header, n, e)"
    and k: "0 < k" "k < length rows"
    and row: "row = pad_row (max n e) (rows ! k)"
    and noskip: "\<not> (skip_existing a \<and> strip (row ! n) \<noteq> [])"
    and path: "strip (row ! 0) \<noteq> []"
    and fails: "urlopen (normalize_url (base_url a) (strip (row ! 0))) = Inl exc"
  shows "\<exists>table out.
           get_node_ids_main urlopen a (Some rows) = Inr (table, out)
         \<and> length table = length rows \<and> length out = length rows - 1
         \<and> table ! k = row[n := [], e := []]
         \<and> table ! k ! n = [] \<and> table ! k ! e = []
         \<and> out ! (k - 1) = FetchError k (length rows - 1) (strip (row ! 0)) exc
         \<and> (\<forall>j. 0 < j \<and> j < length rows \<longrightarrow>
               table ! j = fst (process_row urlopen a n e (length rows - 1) j (rows ! j))
             \<and> out ! (j - 1) = snd (process_row urlopen a n e (length rows - 1) j (rows ! j)))"
proof -
  from main_table [OF rows cols, of urlopen a]
  obtain table out where run: "get_node_ids_main urlopen a (Some rows) = Inr (table, out)"
    by simp
  note m = main_nth [OF rows cols run]
  have len: "max n e < length row" unfolding row by (rule length_pad_row)
  then have ne: "row \<noteq> []" by auto
  have pr: "process_row urlopen a n e (length rows - 1) k (rows ! k) =
      (row[n := [], e := []], FetchError k (length rows - 1) (strip (row ! 0)) exc)"
    using noskip path fails ne
    by (simp add: process_row_def Let_def row [symmetric] fetch_node_id_def)
  from m(4) [OF k] pr have tk: "table ! k = row[n := [], e := []]"
    and ok: "out ! (k - 1) = FetchError k (length rows - 1) (strip (row ! 0)) exc"
    by simp_all
  have "row[n := [], e := []] ! n = []" "row[n := [], e := []] ! e = []"
    using len by (auto simp: nth_list_update)
  with tk have cells: "table ! k ! n = []" "table ! k ! e = []" by simp_all
  from m(4) have all: "\<forall>j. 0 < j \<and> j < length rows \<longrightarrow>
               table ! j = fst (process_row urlopen a n e (length rows - 1) j (rows ! j))
             \<and> out ! (j - 1) = snd (process_row urlopen a n e (length rows - 1) j (rows ! j))"
    by blast
  from run m(1,2) tk cells ok all show ?thesis by blast
qed

theorem fetch_failure_row_witness:
  "get_node_ids_main
     (\<lambda>url. if url = ''https://x.org/team/a'' then Inl ''timed out''
             else Inr [(''article'', [(''data-history-node-id'', Some ''7'')])])
     \<lparr>base_url = ''https://x.org'', skip_existing = False\<rparr>
     (Some [[''drupal-path''], [''team/a''], [''team/b'']])
   = Inr ([[''drupal-path'', ''node-id'', ''edit-link''],
           [''team/a'', [], []],
           [''team/b'', ''7'', ''https://x.org/node/7/edit'']],
          [FetchError 1 2 ''team/a'' ''timed out'', Found 2 2 ''team/b'' ''7''])"
proof -
  define u :: fetcher where "u = (\<lambda>url. if url = ''https://x.org/team/a'' then Inl ''timed out''
             else Inr [(''article'', [(''data-history-node-id'', Some ''7'')])])"
  define a where "a = \<lparr>base_url = ''https://x.org'', skip_existing = False\<rparr>"
  define rows where "rows = [[''drupal-path''], [''team/a''], [''team/b'']]"
  define row where "row = pad_row (max 1 2) (rows ! 1)"
  have row_eq: "row = [''team/a'', [], []]" by (simp add: row_def rows_def pad_row_eq)
  have h0: "rows \<noteq> []" by (simp add: rows_def)
  have h1: "ensure_columns (hd rows) = ([''drupal-path'', ''node-id'', ''edit-link''], 1, 2)"
    by (simp add: rows_def ensure_columns_def ensure_column_def)
  have h2: "(0::nat) < 1" "1 < length rows" by (simp_all add: rows_def)
  have h3: "\<not> (skip_existing a \<and> strip (row ! 1) \<noteq> [])" by (simp add: a_def)
  have h4: "strip (row ! 0) \<noteq> []" by (simp add: row_eq string_eval)
  have h5: "u (normalize_url (base_url a) (strip (row ! 0))) = Inl ''timed out''"
    by (simp add: u_def a_def row_eq normalize_url_def string_eval)
  from fetch_failure_row [where urlopen = u and a = a and rows = rows and k = 1 and n = 1
      and e = 2 and row = row and exc = "''timed out''", OF h0 h1 h2 row_def h3 h4 h5]
  obtain table out where run: "get_node_ids_main u a (Some rows) = Inr (table, out)"
    and t1: "table ! 1 = row[1 := [], 2 := []]"
    and o1: "out ! (1 - 1) = FetchError 1 (length rows - 1) (strip (row ! 0)) ''timed out''"
    by blast
  have ev: "get_node_ids_main u a (Some rows) =
      Inr ([[''drupal-path'', ''node-id'', ''edit-link''],
           [''team/a'', [], []],
           [''team/b'', ''7'', ''https://x.org/node/7/edit'']],
          [FetchError 1 2 ''team/a'' ''timed out'', Found 2 2 ''team/b'' ''7''])"
    by (simp add: u_def a_def rows_def resolver_eval string_eval Let_def)
  then show ?thesis using run t1 o1 unfolding u_def a_def rows_def by simp
qed

text \<open>
  C8, as amended. When the first column of the table is not itself the \<open>node-id\<close> or
  \<open>edit-link\<close> column (the header is not empty and its first name is neither), a
  second run over the table written by a first run, with the same responses and
  options, writes that same table.
\<close>

theorem resolver_idempotent:
  assumes run: "get_node_ids_main urlopen a (Some rows) = Inr (table, out)"
    and first: "hd rows \<noteq> []" "hd (hd rows) \<noteq> ''node-id''" "hd (hd rows) \<noteq> ''edit-link''"
  shows "\<exists>out'. get_node_ids_main urlopen a (Some table) = Inr (table, out')"
proof -
  have rows: "rows \<noteq> []" using run by (rule main_rows_nonempty)
  obtain h n e where cols: "ensure_columns (hd rows) = (h, n, e)"
    by (cases "ensure_columns (hd rows)") auto
  note c = ensure_columns_props [OF cols]
  from c(5) [OF first] have n0: "n \<noteq> 0" and e0: "e \<noteq> 0" by simp_all
  define g where "g = (\<lambda>t (jr :: nat \<times> string list). fst (process_row urlopen a n e t (fst jr) (snd jr)))"
  define body where "body = map (g (length rows - 1)) (enumerate 1 (tl rows))"
  from run main_table [OF rows cols, of urlopen a] have table: "table = h # body"
    by (simp add: body_def g_def)
  then have t_ne: "table \<noteq> []" and hd_t: "hd table = h" and tl_t: "tl table = body" by simp_all
  have cols': "ensure_columns (hd table) = (h, n, e)" using c(4) hd_t by simp
  have "map (g (length table - 1)) (enumerate 1 body) = body"
  proof (rule nth_equalityI)
    show "length (map (g (length table - 1)) (enumerate 1 body)) = length body" by simp
  next
    fix k assume "k < length (map (g (length table - 1)) (enumerate 1 body))"
    then have k: "k < length (tl rows)" by (simp add: body_def)
    then have b: "body ! k = g (length rows - 1) (1 + k, tl rows ! k)"
      by (simp add: body_def nth_enumerate_eq)
    have "map (g (length table - 1)) (enumerate 1 body) ! k = g (length table - 1) (1 + k, body ! k)"
      using k by (simp add: body_def nth_enumerate_eq)
    also have "\<dots> = body ! k"
      unfolding b g_def using process_row_idem [OF c(3) n0 e0] by simp
    finally show "map (g (length table - 1)) (enumerate 1 body) ! k = body ! k" .
  qed
  with main_table [OF t_ne cols', of urlopen a] tl_t table
  have "\<exists>out'. get_node_ids_main urlopen a (Some table) = Inr (table, out')"
    by (simp add: g_def)
  then show ?thesis .
qed

theorem resolver_idempotent_witness:
  "get_node_ids_main
     (\<lambda>url. if url = ''https://x.org/team/a''
             then Inr [(''article'', [(''data-history-node-id'', Some ''482'')])]
             else Inl ''HTTP Error 404: Not Found'')
     \<lparr>base_url = ''https://x.org'', skip_existing = False\<rparr>
     (Some [[''drupal-path''], [''team/a''], [''team/b'']])
   = Inr ([[''drupal-path'', ''node-id'', ''edit-link''],
           [''team/a'', ''482'', ''https://x.org/node/482/edit''],
           [''team/b'', [], []]],
          [Found 1 2 ''team/a'' ''482'', FetchError 2 2 ''team/b'' ''HTTP Error 404: Not Found''])
   \<and> (\<exists>out'. get_node_ids_main
     (\<lambda>url. if url = ''https://x.org/team/a''
             then Inr [(''article'', [(''data-history-node-id'', Some ''482'')])]
             else Inl ''HTTP Error 404: Not Found'')
     \<lparr>base_url = ''https://x.org'', skip_existing = False\<rparr>
     (Some [[''drupal-path'', ''node-id'', ''edit-link''],
           [''team/a'', ''482'', ''https://x.org/node/482/edit''],
           [''team/b'', [], []]])
   = Inr ([[''drupal-path'', ''node-id'', ''edit-link''],
           [''team/a'', ''482'', ''https://x.org/node/482/edit''],
           [''team/b'', [], []]], out'))"
proof -
  define u :: fetcher where "u = (\<lambda>url. if url = ''https://x.org/team/a''
             then Inr [(''article'', [(''data-history-node-id'', Some ''482'')])]
             else Inl ''HTTP Error 404: Not Found'')"
  define a where "a = \<lparr>base_url = ''https://x.org'', skip_existing = False\<rparr>"
  define rows where "rows = [[''drupal-path''], [''team/a''], [''team/b'']]"
  define table where "table = [[''drupal-path'', ''node-id'', ''edit-link''],
           [''team/a'', ''482'', ''https://x.org/node/482/edit''],
           [''team/b'', [], []]]"
  have run: "get_node_ids_main u a (Some rows) =
      Inr (table, [Found 1 2 ''team/a'' ''482'', FetchError 2 2 ''team/b'' ''HTTP Error 404: Not Found''])"
    by (simp add: u_def a_def rows_def table_def resolver_eval string_eval Let_def)
  have h: "hd rows \<noteq> []" "hd (hd rows) \<noteq> ''node-id''" "hd (hd rows) \<noteq> ''edit-link''"
    by (simp_all add: rows_def)
  from resolver_idempotent [OF run h] run show ?thesis
    unfolding u_def a_def rows_def table_def by simp
qed

text \<open>
  C8 as stated fails where the first column is named \<open>node-id\<close>: the first run
  overwrites the path with the identifier, and the second run fetches another page.
\<close>

theorem node_id_first_column_counterexample:
  "get_node_ids_main
     (\<lambda>url. if url = ''https://x.org/team/a''
             then Inr [(''article'', [(''data-history-node-id'', Some ''482'')])]
             else Inl ''HTTP Error 404: Not Found'')
     \<lparr>base_url = ''https://x.org'', skip_existing = False\<rparr>
     (Some [[''node-id''], [''team/a'']])
   = Inr ([[''node-id'', ''edit-link''], [''482'', ''https://x.org/node/482/edit'']],
          [Found 1 1 ''team/a'' ''482''])
   \<and> get_node_ids_main
     (\<lambda>url. if url = ''https://x.org/team/a''
             then Inr [(''article'', [(''data-history-node-id'', Some ''482'')])]
             else Inl ''HTTP Error 404: Not Found'')
     \<lparr>base_url = ''https://x.org'', skip_existing = False\<rparr>
     (Some [[''node-id'', ''edit-link''], [''482'', ''https://x.org/node/482/edit'']])
   = Inr ([[''node-id'', ''edit-link''], [[], []]],
          [FetchError 1 1 ''482'' ''HTTP Error 404: Not Found''])"
  by (simp add: resolver_eval string_eval Let_def)

end
